theory Spec2Isabelle
  imports Main "HOL-Library.Sublist"
begin

section \<open>Documents and hits\<close>

text \<open>
  Both notebooks store one document per game (the ingestion cell): \<open>name\<close>,
  \<open>recommendation\<close> and \<open>url\<close> come from \<open>x.get(...)\<close> and are therefore a string
  or \<open>None\<close>; \<open>descriptions\<close> is always the string built by \<open>' '.join\<close>.  The
  Chinese notebook stores \<open>descriptions_en\<close> as well, built in the same way; the field
  is absent (\<open>None\<close> here) in the documents of the English notebook.
  A text-search hit carries every stored field, the \<open>_id\<close> and the \<open>score\<close> that the
  projection \<open>{"score": {"$meta": "textScore"}}\<close> adds; a vector-search hit is projected
  with \<open>"_id": 0\<close> and carries no score.  Floating-point values (embedding components,
  text scores) are never inspected by \<open>similarity_search\<close>: they are values of an
  uninterpreted type \<open>'f\<close>.
\<close>

record 'f doc =
  doc_id :: "string option"
  name :: "string option"
  descriptions :: string
  descriptions_en :: "string option"
  recommendation :: "string option"
  url :: "string option"
  descriptions_embeddings :: "'f list"
  score :: "'f option"

text \<open>Python's \<open>str(v)\<close> on a value that is a string or \<open>None\<close>.\<close>

fun py_str :: "string option \<Rightarrow> string" where
  "py_str None = ''None''"
| "py_str (Some s) = s"

text \<open>\<open>dict_str = str(item['name'])\<close>: the identity key of a hit.\<close>

definition dict_str :: "'f doc \<Rightarrow> string" where
  "dict_str item = py_str (name item)"


section \<open>The two-way recall merge of \<open>similarity_search\<close>\<close>

text \<open>
  The merge is written inline in \<open>similarity_search\<close>, over three local variables.
  \<^verbatim>\<open>
    merged_list = []
    for doc in tsr:
        merged_list.append(doc)
    for doc in r:
        merged_list.append(doc)
    unique_set = set()
    result = []
    for item in merged_list:
        dict_str = str(item['name'])
        if dict_str not in unique_set and len(result)<2:
            unique_set.add(dict_str)
            result.append(item)
  \<close>
  A \<open>for\<close> loop over a list is \<^const>\<open>fold\<close> of its body over the state of the
  locals.  The literal \<open>2\<close> of the source is the parameter \<open>cap\<close>;
  \<open>similarity_search\<close> runs the merge with \<open>cap = 2\<close>.
\<close>

record 'f locals =
  merged_list :: "'f doc list"
  unique_set :: "string set"
  result :: "'f doc list"

definition append_doc :: "'f doc \<Rightarrow> 'f locals \<Rightarrow> 'f locals" where
  "append_doc d s = s\<lparr>merged_list := merged_list s @ [d]\<rparr>"

definition merge_step :: "nat \<Rightarrow> 'f doc \<Rightarrow> 'f locals \<Rightarrow> 'f locals" where
  "merge_step cap item s =
     (if dict_str item \<notin> unique_set s \<and> length (result s) < cap
      then s\<lparr>unique_set := insert (dict_str item) (unique_set s),
             result := result s @ [item]\<rparr>
      else s)"

definition merge_phase :: "nat \<Rightarrow> 'f locals \<Rightarrow> 'f doc list \<Rightarrow> 'f doc list \<Rightarrow> 'f locals" where
  "merge_phase cap s tsr r =
     (let s1 = s\<lparr>merged_list := []\<rparr>;
          s2 = fold append_doc tsr s1;
          s3 = fold append_doc r s2;
          s4 = s3\<lparr>unique_set := {}\<rparr>;
          s5 = s4\<lparr>result := []\<rparr>
      in fold (merge_step cap) (merged_list s5) s5)"

text \<open>The locals before the first assignment of the merge; their content is overwritten.\<close>

definition no_locals :: "'f locals" where
  "no_locals = \<lparr>merged_list = [], unique_set = {}, result = []\<rparr>"

definition merge_recall :: "nat \<Rightarrow> 'f doc list \<Rightarrow> 'f doc list \<Rightarrow> 'f doc list" where
  "merge_recall cap tsr r = result (merge_phase cap no_locals tsr r)"


section \<open>External collaborators and the trace of their calls\<close>

text \<open>
  \<open>similarity_search\<close> talks to four services: the Bedrock text model (through
  \<open>timer_llm_claude3\<close>), the Bedrock embedding model (through \<open>generate_embeddings\<close>),
  the DocumentDB collection (\<open>aggregate\<close> with a \<open>vectorSearch\<close> stage, \<open>find\<close> with
  \<open>$text\<close>) and the image host (\<open>requests.get\<close>, \<open>io.imread\<close>).  Each call may raise;
  the source has no \<open>try\<close>, so an exception ends \<open>similarity_search\<close>.  The model
  records every call in a log, in the order of the source, and lets the answer of a
  service depend on all calls made before (so that the same prompt can succeed once and
  fail later).  Console output (\<open>print\<close>) and the matplotlib calls are not recorded.
  The cursors that \<open>aggregate\<close> and \<open>find\<close> return are modelled further down.
\<close>

datatype error =
    ExternalError string
  | TypeError
  | AttributeError

datatype 'f event =
    InvokeModel string
  | EmbedQuery string
  | Aggregate "'f list" string string nat
  | FindText string
  | RequestsGet string
  | ImRead string

record 'f services =
  invoke_model :: "'f event list \<Rightarrow> string \<Rightarrow> error + string"
  embed_query :: "'f event list \<Rightarrow> string \<Rightarrow> error + 'f list"
  aggregate :: "'f event list \<Rightarrow> 'f list \<Rightarrow> string \<Rightarrow> string \<Rightarrow> nat \<Rightarrow> error + 'f doc list"
  find_text :: "'f event list \<Rightarrow> string \<Rightarrow> error + 'f doc list"
  requests_get :: "'f event list \<Rightarrow> string \<Rightarrow> error + unit"
  imread :: "'f event list \<Rightarrow> string \<Rightarrow> error + unit"

text \<open>Sequencing with exceptions: the first error ends the computation, the log is kept.\<close>

definition and_then ::
  "(error + 'a) \<times> 'l \<Rightarrow> ('a \<Rightarrow> 'l \<Rightarrow> (error + 'b) \<times> 'l) \<Rightarrow> (error + 'b) \<times> 'l" where
  "and_then m f = (case m of (Inl e, log) \<Rightarrow> (Inl e, log) | (Inr v, log) \<Rightarrow> f v log)"

text \<open>
  \<open>timer_llm_claude3(prompt)\<close> sends the prompt to the text model and returns the text
  of the answer; \<open>generate_embeddings(data)\<close> returns \<open>bedrock_embeddings.embed_query(data)\<close>.
\<close>

definition timer_llm_claude3 ::
  "'f services \<Rightarrow> string \<Rightarrow> 'f event list \<Rightarrow> (error + string) \<times> 'f event list" where
  "timer_llm_claude3 S prompt log = (invoke_model S log prompt, log @ [InvokeModel prompt])"

definition generate_embeddings ::
  "'f services \<Rightarrow> string \<Rightarrow> 'f event list \<Rightarrow> (error + 'f list) \<times> 'f event list" where
  "generate_embeddings S data log = (embed_query S log data, log @ [EmbedQuery data])"

text \<open>
  \<open>collection.aggregate([{'$search': {"vectorSearch": {"vector": res1,
  "path": "descriptions_embeddings", "similarity": "euclidean", "k": 2}}}, ...])\<close>
\<close>

definition vector_search ::
  "'f services \<Rightarrow> 'f list \<Rightarrow> 'f event list \<Rightarrow> (error + 'f doc list) \<times> 'f event list" where
  "vector_search S res1 log =
     (aggregate S log res1 ''descriptions_embeddings'' ''euclidean'' 2,
      log @ [Aggregate res1 ''descriptions_embeddings'' ''euclidean'' 2])"

text \<open>
  The query of \<open>collection.find({"$text": {"$search": en_response}}, ...).sort(...)\<close>,
  as it is sent to the server.
\<close>

definition text_search ::
  "'f services \<Rightarrow> string \<Rightarrow> 'f event list \<Rightarrow> (error + 'f doc list) \<times> 'f event list" where
  "text_search S en_response log = (find_text S log en_response, log @ [FindText en_response])"

definition requests_get_content ::
  "'f services \<Rightarrow> string \<Rightarrow> 'f event list \<Rightarrow> (error + unit) \<times> 'f event list" where
  "requests_get_content S u log = (requests_get S log u, log @ [RequestsGet u])"

definition io_imread ::
  "'f services \<Rightarrow> string \<Rightarrow> 'f event list \<Rightarrow> (error + unit) \<times> 'f event list" where
  "io_imread S u log = (imread S log u, log @ [ImRead u])"


section \<open>The string literals of a notebook\<close>

text \<open>
  The two notebooks differ only in their string literals (English or Chinese): the
  instruction put before the query for the translation, the text of \<open>multi_var_prompt\<close>
  before and after \<open>{instructions}\<close>, and the three labels of the instructions.
  \<open>literals_en\<close> are those of the English notebook; a character outside ASCII is
  written as its UTF-8 bytes.
\<close>

record literals =
  translate_instruction :: string
  template_head :: string
  template_tail :: string
  name_label :: string
  description_label :: string
  hardware_label :: string

definition literals_en :: literals where
  "literals_en = \<lparr>
     translate_instruction =
       ''You are a translator, translate the following into English, without any additional rhetoric, just translate. In the translated content, remove the word game'' @ [CHR 0xEF, CHR 0xBC, CHR 0x9A],
     template_head =
       ''\<newline>Human:\<newline>You are an excellent game recommender and we need you to provide summaries and recommendations for games\<newline>\<newline><Objective>\<newline>- Please include the game titles and game categories in your summaries and recommendations\<newline>- Please provide game descriptions and perform optimized summarization for them\<newline>- Please specify the hardware configurations required to run the games\<newline>- Evaluate the suitability of the games for underage players\<newline></Objective>\<newline>\<newline><instructions>\<newline>'',
     template_tail =
       ''\<newline></instructions>\<newline>Your objective is to determine based on the goals specified in<Objective>, List the game titles, game categories, game descriptions, and user's system configurations specified in <instructions>, and determine whether each game is suitable for minors, no additional irrelevant text content is required\<newline>\<newline>Assistant:'',
     name_label = ''game name:'',
     description_label = ''.\<newline>Game Description:'',
     hardware_label = ''.\<newline>Hardware configuration'' @ [CHR 0xEF, CHR 0xBC, CHR 0x9A]\<rparr>"


section \<open>Recommendation generation\<close>

text \<open>
  \<^verbatim>\<open>
    for x in result:
        prompt = multi_var_prompt.format(instructions="game name:"+x["name"]
                   + ".\nGame Description:" +x["descriptions"]
                   + ".\nHardware configuration:"+ x["recommendation"])
        response= timer_llm_claude3(prompt)
        print(response)
        url = x["url"].split('?')[0]
        urldata = requests.get(url).content
        a = io.imread(url)
        plt.imshow(a) ...
  \<close>
  Concatenating a string with \<open>None\<close> raises \<open>TypeError\<close>; \<open>None.split\<close> raises
  \<open>AttributeError\<close>.
\<close>

definition build_prompt :: "literals \<Rightarrow> 'f doc \<Rightarrow> error + string" where
  "build_prompt L x =
     (case name x of
        None \<Rightarrow> Inl TypeError
      | Some n \<Rightarrow>
          (case recommendation x of
             None \<Rightarrow> Inl TypeError
           | Some hw \<Rightarrow>
               Inr (template_head L @
                    (name_label L @ n @ description_label L @ descriptions x @
                     hardware_label L @ hw) @
                    template_tail L)))"

definition split_url :: "'f doc \<Rightarrow> error + string" where
  "split_url x =
     (case url x of
        None \<Rightarrow> Inl AttributeError
      | Some u \<Rightarrow> Inr (takeWhile (\<lambda>c. c \<noteq> CHR ''?'') u))"

definition generation_step ::
  "literals \<Rightarrow> 'f services \<Rightarrow> 'f doc \<Rightarrow> 'f event list \<Rightarrow> (error + unit) \<times> 'f event list" where
  "generation_step L S x log =
     and_then (build_prompt L x, log) (\<lambda>prompt log.
     and_then (timer_llm_claude3 S prompt log) (\<lambda>response log.
     and_then (split_url x, log) (\<lambda>u log.
     and_then (requests_get_content S u log) (\<lambda>urldata log.
     and_then (io_imread S u log) (\<lambda>a log.
     (Inr (), log))))))"

fun generation_loop ::
  "literals \<Rightarrow> 'f services \<Rightarrow> 'f doc list \<Rightarrow> 'f event list \<Rightarrow> (error + unit) \<times> 'f event list" where
  "generation_loop L S [] log = (Inr (), log)"
| "generation_loop L S (x # xs) log =
     (case generation_step L S x log of
        (Inl e, log') \<Rightarrow> (Inl e, log')
      | (Inr u, log') \<Rightarrow> generation_loop L S xs log')"


section \<open>Cursors and the merge lines\<close>

text \<open>
  \<open>r\<close> and \<open>tsr\<close> are pymongo cursors.  \<open>collection.aggregate\<close> runs its command and
  returns a cursor over the documents of the answer.  \<open>collection.find(...).sort(...)\<close>
  builds a cursor and sends nothing: the query goes to the server when the cursor is
  first iterated, here by \<open>for doc in tsr\<close>.  A loop over a cursor takes every document
  the cursor still holds and leaves it exhausted, so a second loop over the same cursor
  yields nothing.  An answer is taken to arrive in one batch.
\<close>

datatype 'f cursor =
    Unsent string
  | Fetched "'f doc list"

fun drain ::
  "'f services \<Rightarrow> 'f cursor \<Rightarrow> 'f event list \<Rightarrow>
   (error + 'f doc list \<times> 'f cursor) \<times> 'f event list" where
  "drain S (Unsent en_response) log =
     and_then (text_search S en_response log) (\<lambda>docs log. (Inr (docs, Fetched []), log))"
| "drain S (Fetched docs) log = (Inr (docs, Fetched []), log)"

text \<open>
  The merge lines of \<open>similarity_search\<close> on the two cursors: the loops over \<open>tsr\<close> and
  over \<open>r\<close> take the documents of the cursors, in this order, and the merge runs on
  them.  The lines end in the new locals and the two cursors as they are left.
\<close>

definition merge_lines ::
  "nat \<Rightarrow> 'f services \<Rightarrow> 'f locals \<Rightarrow> 'f cursor \<Rightarrow> 'f cursor \<Rightarrow> 'f event list \<Rightarrow>
   (error + 'f locals \<times> 'f cursor \<times> 'f cursor) \<times> 'f event list" where
  "merge_lines cap S s tsr r log =
     and_then (drain S tsr log) (\<lambda>(tsr_docs, tsr') log.
     and_then (drain S r log) (\<lambda>(r_docs, r') log.
     (Inr (merge_phase cap s tsr_docs r_docs, tsr', r'), log)))"


section \<open>\<open>similarity_search\<close>\<close>

text \<open>
  \<^verbatim>\<open>
    def similarity_search(search_text):
        en_response= timer_llm_claude3("You are a translator, ...:"+search_text)
        print(en_response)
        data = {"inputs": search_text}
        res1 = generate_embeddings(data['inputs'])
        query = {"vectorSearch" : {"vector" : res1, ..., "k": 2}}
        r = collection.aggregate([{'$search': query},{"$project": projection}])
        tsr = collection.find({"$text": {"$search": en_response}}, ...).sort(...)
        ... merge ...
        for x in result: ...
  \<close>
  The function returns nothing; the model returns the error that ended it, if any, and
  the log of the calls it made.  The merge lines receive \<open>tsr\<close> as a cursor whose
  query is not yet sent and \<open>r\<close> as a cursor over the answer of \<open>aggregate\<close>.
\<close>

definition similarity_search ::
  "literals \<Rightarrow> 'f services \<Rightarrow> string \<Rightarrow> (error + unit) \<times> 'f event list" where
  "similarity_search L S search_text =
     and_then (timer_llm_claude3 S (translate_instruction L @ search_text) []) (\<lambda>en_response log.
     and_then (generate_embeddings S search_text log) (\<lambda>res1 log.
     and_then (vector_search S res1 log) (\<lambda>r log.
     and_then (merge_lines 2 S no_locals (Unsent en_response) (Fetched r) log) (\<lambda>(s, tsr', r') log.
     generation_loop L S (result s) log))))"


section \<open>Sample data\<close>

text \<open>
  A text-search hit and a vector-search hit for the game named \<open>n\<close>, and services
  that answer every call with fixed data, except that the text model fails at the calls
  made when the log has one of the given lengths.
\<close>

definition text_hit :: "string \<Rightarrow> 'f \<Rightarrow> 'f doc" where
  "text_hit n sc =
     \<lparr>doc_id = Some (''id-'' @ n), name = Some n, descriptions = ''Game genres: Action'',
      descriptions_en = None,
      recommendation = Some ''Memory: 8 GB RAM'',
      url = Some (''https://example.com/'' @ n @ ''.jpg?v=1''),
      descriptions_embeddings = [], score = Some sc\<rparr>"

definition vector_hit :: "string \<Rightarrow> 'f list \<Rightarrow> 'f doc" where
  "vector_hit n v =
     \<lparr>doc_id = None, name = Some n, descriptions = ''Game genres: Action'',
      descriptions_en = None,
      recommendation = Some ''Memory: 8 GB RAM'',
      url = Some (''https://example.com/'' @ n @ ''.jpg?v=1''),
      descriptions_embeddings = v, score = None\<rparr>"

definition demo_services :: "nat set \<Rightarrow> 'f doc list \<Rightarrow> 'f doc list \<Rightarrow> 'f services" where
  "demo_services failing tsr r =
     \<lparr>invoke_model = (\<lambda>log prompt.
        if length log \<in> failing then Inl (ExternalError ''ThrottlingException'')
        else Inr ''multiplayer shooting''),
      embed_query = (\<lambda>log data. Inr []),
      aggregate = (\<lambda>log v p m k. Inr r),
      find_text = (\<lambda>log t. Inr tsr),
      requests_get = (\<lambda>log u. Inr ()),
      imread = (\<lambda>log u. Inr ())\<rparr>"


text \<open>
  Services whose answers depend on what they are asked: the embedding model tells the
  raw query from any other text, the vector index answers to that embedding only, and
  the text index answers to the translation only.
\<close>

definition routed_services :: "int services" where
  "routed_services =
     \<lparr>invoke_model = (\<lambda>log prompt. Inr ''multiplayer shooting''),
      embed_query = (\<lambda>log data. if data = ''Multiplayer Shooting Game'' then Inr [1] else Inr [0]),
      aggregate = (\<lambda>log v p m k. if v = [1] then Inr [vector_hit ''B'' [1]] else Inr []),
      find_text = (\<lambda>log t. if t = ''multiplayer shooting'' then Inr [text_hit ''A'' 9] else Inr []),
      requests_get = (\<lambda>log u. Inr ()),
      imread = (\<lambda>log u. Inr ())\<rparr>"


section \<open>The reference algorithm of the specification\<close>

text \<open>
  Following the specification's words (section 4.2): ``concatenate the two sequences in
  fixed priority order -- lexical hits first, followed by vector hits.  Walk the
  concatenated sequence once, maintaining a set of identity keys already emitted.  For
  each item, if its identity key has not been emitted, emit it and mark it emitted; stop
  scanning as soon as N distinct items have been emitted''.
\<close>

fun spec_scan :: "nat \<Rightarrow> 'f doc list \<Rightarrow> string set \<Rightarrow> 'f doc list \<Rightarrow> 'f doc list" where
  "spec_scan n [] emitted out = out"
| "spec_scan n (item # rest) emitted out =
     (if n \<le> length out then out
      else if dict_str item \<in> emitted then spec_scan n rest emitted out
      else spec_scan n rest (insert (dict_str item) emitted) (out @ [item]))"

definition spec_merge :: "nat \<Rightarrow> 'f doc list \<Rightarrow> 'f doc list \<Rightarrow> 'f doc list" where
  "spec_merge n lexical vector = spec_scan n (lexical @ vector) {} []"


section \<open>Auxiliary notions for the proofs\<close>

text \<open>The identity keys occurring in a hit list.\<close>

definition keys_of :: "'f doc list \<Rightarrow> string set" where
  "keys_of xs = dict_str ` set xs"

text \<open>The hits of a list whose key is neither in \<open>seen\<close> nor carried by an earlier hit.\<close>

fun first_seen :: "string set \<Rightarrow> 'f doc list \<Rightarrow> 'f doc list" where
  "first_seen seen [] = []"
| "first_seen seen (x # xs) =
     (if dict_str x \<in> seen then first_seen seen xs
      else x # first_seen (insert (dict_str x) seen) xs)"


text \<open>The calls that the generation loop can make.\<close>

definition generation_calls :: "'f event set" where
  "generation_calls = range InvokeModel \<union> range RequestsGet \<union> range ImRead"


section \<open>What the merge computes\<close>

lemma fold_append_doc:
  "fold append_doc xs s = s\<lparr>merged_list := merged_list s @ xs\<rparr>"
  by (induction xs arbitrary: s) (simp_all add: append_doc_def)

lemma fold_merge_step_result:
  "result (fold (merge_step cap) xs s) =
     result s @ take (cap - length (result s)) (first_seen (unique_set s) xs)"
proof (induction xs arbitrary: s)
  case Nil
  show ?case by simp
next
  case (Cons x xs)
  show ?case
  proof (cases "dict_str x \<in> unique_set s")
    case True
    then show ?thesis using Cons.IH [of s] by (simp add: merge_step_def)
  next
    case False
    show ?thesis
    proof (cases "length (result s) < cap")
      case True
      then obtain k where k: "cap - length (result s) = Suc k"
        by (metis Suc_diff_Suc)
      let ?s = "s\<lparr>unique_set := insert (dict_str x) (unique_set s), result := result s @ [x]\<rparr>"
      have "merge_step cap x s = ?s"
        using False True by (simp add: merge_step_def)
      moreover have "cap - length (result ?s) = k"
        using k by simp
      ultimately show ?thesis
        using Cons.IH [of ?s] False k by simp
    next
      case full: False
      then have "merge_step cap x s = s" "cap - length (result s) = 0"
        by (simp_all add: merge_step_def)
      then show ?thesis using Cons.IH [of s] by simp
    qed
  qed
qed

lemma merge_phase_result:
  "result (merge_phase cap s tsr r) = take cap (first_seen {} (tsr @ r))"
proof -
  define s5 where
    "s5 = s\<lparr>merged_list := tsr @ r, unique_set := {}, result := []\<rparr>"
  have "merge_phase cap s tsr r = fold (merge_step cap) (tsr @ r) s5"
    by (simp add: merge_phase_def Let_def fold_append_doc s5_def del: fold_append)
  moreover have "result s5 = []" "unique_set s5 = {}"
    by (simp_all add: s5_def)
  ultimately show ?thesis
    by (simp add: fold_merge_step_result del: fold_append)
qed

lemma merge_recall_eq: "merge_recall cap tsr r = take cap (first_seen {} (tsr @ r))"
  by (simp add: merge_recall_def merge_phase_result)

lemma keys_first_seen: "keys_of (first_seen seen xs) = keys_of xs - seen"
  by (induction xs arbitrary: seen) (auto simp: keys_of_def)

lemma distinct_first_seen: "distinct (map dict_str (first_seen seen xs))"
proof (induction xs arbitrary: seen)
  case Nil
  show ?case by simp
next
  case (Cons x xs)
  have "dict_str x \<notin> keys_of (first_seen (insert (dict_str x) seen) xs)"
    by (simp add: keys_first_seen)
  then show ?case using Cons.IH by (simp add: keys_of_def)
qed

lemma length_first_seen: "length (first_seen seen xs) = card (keys_of xs - seen)"
proof -
  have "length (first_seen seen xs) = length (map dict_str (first_seen seen xs))"
    by simp
  also have "\<dots> = card (set (map dict_str (first_seen seen xs)))"
    using distinct_first_seen [of seen xs] by (simp only: distinct_card)
  also have "\<dots> = card (keys_of xs - seen)"
    using keys_first_seen [of seen xs] by (simp add: keys_of_def)
  finally show ?thesis .
qed


lemma first_seen_append:
  "first_seen seen (xs @ ys) = first_seen seen xs @ first_seen (seen \<union> keys_of xs) ys"
  by (induction xs arbitrary: seen) (auto simp: keys_of_def insert_absorb)

lemma subseq_first_seen: "subseq (first_seen seen xs) xs"
  by (induction xs arbitrary: seen) auto

lemma first_seen_keys_only:
  "map name xs = map name ys \<Longrightarrow>
   map name (first_seen seen xs) = map name (first_seen seen ys)"
proof (induction xs arbitrary: ys seen)
  case Nil
  then show ?case by simp
next
  case (Cons x xs)
  then obtain y ys' where ys: "ys = y # ys'" "name x = name y" "map name xs = map name ys'"
    by (cases ys) auto
  then show ?case using Cons.IH [of ys'] by (simp add: dict_str_def)
qed

lemma spec_scan_eq:
  "spec_scan n xs emitted out = out @ take (n - length out) (first_seen emitted xs)"
proof (induction xs arbitrary: emitted out)
  case Nil
  show ?case by simp
next
  case (Cons x xs)
  show ?case
  proof (cases "n \<le> length out")
    case True
    then show ?thesis by simp
  next
    case False
    then obtain k where k: "n - length out = Suc k"
      by (metis Suc_diff_Suc not_le)
    show ?thesis
    proof (cases "dict_str x \<in> emitted")
      case True
      then show ?thesis using False Cons.IH [of emitted out] by simp
    next
      case new: False
      have "n - length (out @ [x]) = k" using k by simp
      then show ?thesis
        using False new k Cons.IH [of "insert (dict_str x) emitted" "out @ [x]"] by simp
    qed
  qed
qed

lemma first_seen_find:
  "x \<in> set (first_seen seen xs) \<Longrightarrow> find (\<lambda>d. dict_str d = dict_str x) xs = Some x"
proof (induction xs arbitrary: seen)
  case Nil
  then show ?case by simp
next
  case (Cons y ys)
  show ?case
  proof (cases "dict_str y \<in> seen")
    case True
    with Cons.prems have x: "x \<in> set (first_seen seen ys)" by simp
    then have "dict_str x \<in> keys_of (first_seen seen ys)"
      by (simp add: keys_of_def)
    then have "dict_str x \<notin> seen" by (simp add: keys_first_seen)
    with True have "dict_str y \<noteq> dict_str x" by auto
    then show ?thesis using Cons.IH [OF x] by simp
  next
    case False
    show ?thesis
    proof (cases "x = y")
      case True
      then show ?thesis by simp
    next
      case ne: False
      with False Cons.prems
      have x: "x \<in> set (first_seen (insert (dict_str y) seen) ys)" by simp
      then have "dict_str x \<in> keys_of (first_seen (insert (dict_str y) seen) ys)"
        by (simp add: keys_of_def)
      then have "dict_str y \<noteq> dict_str x" by (auto simp: keys_first_seen)
      then show ?thesis using Cons.IH [OF x] by simp
    qed
  qed
qed

lemma fold_merge_step_merged_list:
  "merged_list (fold (merge_step cap) xs s) = merged_list s"
  by (induction xs arbitrary: s) (simp_all add: merge_step_def)

lemma merge_phase_merged_list: "merged_list (merge_phase cap s tsr r) = tsr @ r"
  by (simp add: merge_phase_def Let_def fold_append_doc fold_merge_step_merged_list
        del: fold_append)

lemma merge_phase_unfold:
  "merge_phase cap s tsr r =
     fold (merge_step cap) (tsr @ r) \<lparr>merged_list = tsr @ r, unique_set = {}, result = []\<rparr>"
  by (cases s) (simp add: merge_phase_def Let_def fold_append_doc del: fold_append)

lemma merge_recall_split:
  "merge_recall cap tsr r =
     merge_recall cap tsr [] @
     take (cap - length (first_seen {} tsr)) (first_seen (keys_of tsr) r)"
  by (simp add: merge_recall_eq first_seen_append)

lemma vector_part_keys:
  "x \<in> set (take n (first_seen (keys_of tsr) r)) \<Longrightarrow> dict_str x \<notin> keys_of tsr"
proof -
  assume "x \<in> set (take n (first_seen (keys_of tsr) r))"
  then have "x \<in> set (first_seen (keys_of tsr) r)"
    by (rule in_set_takeD)
  then have "dict_str x \<in> keys_of (first_seen (keys_of tsr) r)"
    by (simp add: keys_of_def)
  then show ?thesis by (simp add: keys_first_seen)
qed

lemma dict_str_hit:
  "dict_str (text_hit n sc) = n" "dict_str (vector_hit n v) = n"
  by (simp_all add: dict_str_def text_hit_def vector_hit_def)

lemma name_hit:
  "name (text_hit n sc) = Some n" "name (vector_hit n v) = Some n"
  by (simp_all add: text_hit_def vector_hit_def)


section \<open>What \<open>similarity_search\<close> calls\<close>

lemma generation_step_log:
  "\<exists>ev. snd (generation_step L S x log) = log @ ev \<and> set ev \<subseteq> generation_calls"
  by (auto simp: generation_step_def and_then_def timer_llm_claude3_def
      requests_get_content_def io_imread_def generation_calls_def
      split: sum.splits)

lemma generation_loop_log:
  "\<exists>ev. snd (generation_loop L S xs log) = log @ ev \<and> set ev \<subseteq> generation_calls"
proof (induction xs arbitrary: log)
  case Nil
  show ?case by simp
next
  case (Cons x xs)
  obtain ev where ev: "snd (generation_step L S x log) = log @ ev" "set ev \<subseteq> generation_calls"
    using generation_step_log by blast
  show ?case
  proof (cases "generation_step L S x log")
    case (Pair a log')
    with ev have log': "log' = log @ ev" by simp
    show ?thesis
    proof (cases a)
      case (Inl e)
      with Pair log' ev(2) show ?thesis by simp
    next
      case (Inr u)
      obtain ev' where "snd (generation_loop L S xs log') = log' @ ev'" "set ev' \<subseteq> generation_calls"
        using Cons.IH by blast
      with Pair Inr log' ev(2) show ?thesis by simp
    qed
  qed
qed

lemma generation_loop_append:
  "generation_loop L S (xs @ ys) log =
     (case generation_loop L S xs log of
        (Inl e, log') \<Rightarrow> (Inl e, log')
      | (Inr u, log') \<Rightarrow> generation_loop L S ys log')"
  by (induction xs arbitrary: log) (auto split: prod.splits sum.splits)

lemma fold_merge_step_unique_set:
  "unique_set (fold (merge_step cap) xs s) =
     unique_set s \<union> keys_of (take (cap - length (result s)) (first_seen (unique_set s) xs))"
proof (induction xs arbitrary: s)
  case Nil
  show ?case by (simp add: keys_of_def)
next
  case (Cons x xs)
  show ?case
  proof (cases "dict_str x \<in> unique_set s")
    case True
    then show ?thesis using Cons.IH [of s] by (simp add: merge_step_def)
  next
    case False
    show ?thesis
    proof (cases "length (result s) < cap")
      case True
      then obtain k where k: "cap - length (result s) = Suc k"
        by (metis Suc_diff_Suc)
      let ?s = "s\<lparr>unique_set := insert (dict_str x) (unique_set s), result := result s @ [x]\<rparr>"
      have "merge_step cap x s = ?s"
        using False True by (simp add: merge_step_def)
      moreover have "cap - length (result ?s) = k"
        using k by simp
      ultimately show ?thesis
        using Cons.IH [of ?s] False k by (simp add: keys_of_def)
    next
      case full: False
      then have "merge_step cap x s = s" "cap - length (result s) = 0"
        by (simp_all add: merge_step_def)
      then show ?thesis using Cons.IH [of s] by (simp add: keys_of_def)
    qed
  qed
qed

lemma merge_phase_explicit:
  "merge_phase cap s tsr r =
     \<lparr>merged_list = tsr @ r,
      unique_set = keys_of (spec_merge cap tsr r),
      result = spec_merge cap tsr r\<rparr>"
proof -
  let ?s = "\<lparr>merged_list = tsr @ r, unique_set = {}, result = []\<rparr> :: 'a locals"
  have "merged_list (fold (merge_step cap) (tsr @ r) ?s) = tsr @ r"
    by (simp add: fold_merge_step_merged_list del: fold_append)
  moreover have "result (fold (merge_step cap) (tsr @ r) ?s) = spec_merge cap tsr r"
    by (simp add: fold_merge_step_result spec_merge_def spec_scan_eq del: fold_append)
  moreover have "unique_set (fold (merge_step cap) (tsr @ r) ?s) = keys_of (spec_merge cap tsr r)"
    by (simp add: fold_merge_step_unique_set spec_merge_def spec_scan_eq del: fold_append)
  ultimately show ?thesis
    unfolding merge_phase_unfold by (cases "fold (merge_step cap) (tsr @ r) ?s") simp
qed

lemma and_then_Inr: "and_then (Inr v, log) f = f v log"
  by (simp add: and_then_def)

lemma and_then_Inl: "and_then (Inl e, log) f = (Inl e, log)"
  by (simp add: and_then_def)

lemma and_then_assoc:
  "and_then (and_then m f) g = and_then m (\<lambda>v log. and_then (f v log) g)"
  by (cases m) (auto simp: and_then_def split: sum.splits)

lemma merge_lines_unsent:
  "merge_lines cap S s (Unsent en_response) (Fetched r) log =
     and_then (text_search S en_response log) (\<lambda>tsr log.
       (Inr (merge_phase cap s tsr r, Fetched [], Fetched []), log))"
  by (simp add: merge_lines_def and_then_assoc and_then_Inr)

lemma merge_lines_fetched:
  "merge_lines cap S s (Fetched tsr) (Fetched r) log =
     (Inr (merge_phase cap s tsr r, Fetched [], Fetched []), log)"
  by (simp add: merge_lines_def and_then_Inr)

lemma similarity_search_unfold:
  "similarity_search L S search_text =
     and_then (timer_llm_claude3 S (translate_instruction L @ search_text) []) (\<lambda>en_response log.
     and_then (generate_embeddings S search_text log) (\<lambda>res1 log.
     and_then (vector_search S res1 log) (\<lambda>r log.
     and_then (text_search S en_response log) (\<lambda>tsr log.
     generation_loop L S (result (merge_phase 2 no_locals tsr r)) log))))"
  by (simp add: similarity_search_def merge_lines_unsent and_then_assoc and_then_Inr)

lemma similarity_search_cases:
  fixes S :: "'f services" and L :: literals and q :: string
  defines "p0 \<equiv> translate_instruction L @ q"
  obtains
    (translate_fails) e where
      "invoke_model S [] p0 = Inl e"
      "similarity_search L S q = (Inl e, [InvokeModel p0])"
  | (embed_fails) en e where
      "invoke_model S [] p0 = Inr en"
      "embed_query S [InvokeModel p0] q = Inl e"
      "similarity_search L S q = (Inl e, [InvokeModel p0, EmbedQuery q])"
  | (vector_fails) en res1 e where
      "invoke_model S [] p0 = Inr en"
      "embed_query S [InvokeModel p0] q = Inr res1"
      "aggregate S [InvokeModel p0, EmbedQuery q] res1 ''descriptions_embeddings'' ''euclidean'' 2 = Inl e"
      "similarity_search L S q =
         (Inl e, [InvokeModel p0, EmbedQuery q,
                  Aggregate res1 ''descriptions_embeddings'' ''euclidean'' 2])"
  | (text_fails) en res1 r e where
      "invoke_model S [] p0 = Inr en"
      "embed_query S [InvokeModel p0] q = Inr res1"
      "aggregate S [InvokeModel p0, EmbedQuery q] res1 ''descriptions_embeddings'' ''euclidean'' 2 = Inr r"
      "find_text S [InvokeModel p0, EmbedQuery q,
                    Aggregate res1 ''descriptions_embeddings'' ''euclidean'' 2] en = Inl e"
      "similarity_search L S q =
         (Inl e, [InvokeModel p0, EmbedQuery q,
                  Aggregate res1 ''descriptions_embeddings'' ''euclidean'' 2, FindText en])"
  | (retrieved) en res1 r tsr where
      "invoke_model S [] p0 = Inr en"
      "embed_query S [InvokeModel p0] q = Inr res1"
      "aggregate S [InvokeModel p0, EmbedQuery q] res1 ''descriptions_embeddings'' ''euclidean'' 2 = Inr r"
      "find_text S [InvokeModel p0, EmbedQuery q,
                    Aggregate res1 ''descriptions_embeddings'' ''euclidean'' 2] en = Inr tsr"
      "similarity_search L S q =
         generation_loop L S (merge_recall 2 tsr r)
           [InvokeModel p0, EmbedQuery q,
            Aggregate res1 ''descriptions_embeddings'' ''euclidean'' 2, FindText en]"
proof (cases "invoke_model S [] p0")
  case (Inl e)
  then show ?thesis
    using translate_fails [of e]
    by (simp add: similarity_search_unfold and_then_def timer_llm_claude3_def p0_def)
next
  case en: (Inr en)
  show ?thesis
  proof (cases "embed_query S [InvokeModel p0] q")
    case (Inl e)
    then show ?thesis
      using en embed_fails [of en e]
      by (simp add: similarity_search_unfold and_then_def timer_llm_claude3_def
          generate_embeddings_def p0_def)
  next
    case res1: (Inr res1)
    show ?thesis
    proof (cases "aggregate S [InvokeModel p0, EmbedQuery q] res1
                    ''descriptions_embeddings'' ''euclidean'' 2")
      case (Inl e)
      then show ?thesis
        using en res1 vector_fails [of en res1 e]
        by (simp add: similarity_search_unfold and_then_def timer_llm_claude3_def
            generate_embeddings_def vector_search_def p0_def)
    next
      case r: (Inr r)
      show ?thesis
      proof (cases "find_text S [InvokeModel p0, EmbedQuery q,
                      Aggregate res1 ''descriptions_embeddings'' ''euclidean'' 2] en")
        case (Inl e)
        then show ?thesis
          using en res1 r text_fails [of en res1 r e]
          by (simp add: similarity_search_unfold and_then_def timer_llm_claude3_def
              generate_embeddings_def vector_search_def text_search_def p0_def)
      next
        case (Inr tsr)
        then show ?thesis
          using en res1 r retrieved [of en res1 r tsr]
          by (simp add: similarity_search_unfold and_then_def timer_llm_claude3_def
              generate_embeddings_def vector_search_def text_search_def p0_def
              merge_recall_def)
      qed
    qed
  qed
qed

lemma fields_hit:
  "recommendation (text_hit n sc) = Some ''Memory: 8 GB RAM''"
  "recommendation (vector_hit n v) = Some ''Memory: 8 GB RAM''"
  "descriptions (text_hit n sc) = ''Game genres: Action''"
  "descriptions (vector_hit n v) = ''Game genres: Action''"
  "url (text_hit n sc) = Some (''https://example.com/'' @ n @ ''.jpg?v=1'')"
  "url (vector_hit n v) = Some (''https://example.com/'' @ n @ ''.jpg?v=1'')"
  by (simp_all add: text_hit_def vector_hit_def)

lemmas run_defs =
  similarity_search_unfold and_then_def timer_llm_claude3_def generate_embeddings_def
  vector_search_def text_search_def requests_get_content_def io_imread_def
  generation_step_def build_prompt_def split_url_def demo_services_def
  merge_recall_def merge_phase_def append_doc_def merge_step_def no_locals_def
  dict_str_hit name_hit fields_hit


section \<open>Length of the merged result\<close>

text \<open>
  Claim C1.  For every pair of hit lists (text-search hits \<open>tsr\<close>, vector-search hits
  \<open>r\<close>) and every cap, the merged result has as many elements as the minimum of the
  cap and the number of distinct identity keys \<open>str(item['name'])\<close> occurring in the
  two lists; so it has at most cap elements and at most one per distinct key.  The
  source runs the merge with the cap 2.  When every hit has a name (a string, not
  \<open>None\<close>), the number of distinct keys is the number of distinct names.
\<close>

theorem merge_length_min:
  "length (merge_recall cap tsr r) = min cap (card (keys_of tsr \<union> keys_of r))
   \<and> length (merge_recall cap tsr r) \<le> cap
   \<and> length (merge_recall cap tsr r) \<le> card (keys_of tsr \<union> keys_of r)
   \<and> length (merge_recall 2 tsr r) = min 2 (card (keys_of tsr \<union> keys_of r))
   \<and> ((\<forall>d \<in> set tsr \<union> set r. name d \<noteq> None) \<longrightarrow>
        length (merge_recall cap tsr r) = min cap (card (name ` (set tsr \<union> set r))))"
proof -
  have keys: "keys_of (tsr @ r) = keys_of tsr \<union> keys_of r"
    by (auto simp: keys_of_def)
  then have len: "length (merge_recall n tsr r) = min n (card (keys_of tsr \<union> keys_of r))" for n
    by (simp add: merge_recall_eq length_first_seen min.commute)
  have "card (keys_of tsr \<union> keys_of r) = card (name ` (set tsr \<union> set r))"
    if named: "\<forall>d \<in> set tsr \<union> set r. name d \<noteq> None"
  proof -
    have "inj_on py_str (name ` (set tsr \<union> set r))"
    proof (rule inj_onI)
      fix a b
      assume "a \<in> name ` (set tsr \<union> set r)" "b \<in> name ` (set tsr \<union> set r)"
        and eq: "py_str a = py_str b"
      then obtain s t where "a = Some s" "b = Some t"
        using named by force
      with eq show "a = b" by simp
    qed
    then have "card (py_str ` name ` (set tsr \<union> set r)) = card (name ` (set tsr \<union> set r))"
      by (rule card_image)
    moreover have "keys_of tsr \<union> keys_of r = py_str ` name ` (set tsr \<union> set r)"
      by (auto simp: keys_of_def dict_str_def)
    ultimately show ?thesis by simp
  qed
  with len show ?thesis by simp
qed

theorem merge_length_min_witness:
  "None \<notin> name ` (set [text_hit ''G'' (5::int)] \<union> set [vector_hit ''G'' [3], vector_hit ''H'' [4]])
   \<and> length (merge_recall 5 [text_hit ''G'' (5::int)] [vector_hit ''G'' [3], vector_hit ''H'' [4]]) = 2
   \<and> card (name ` (set [text_hit ''G'' (5::int)] \<union> set [vector_hit ''G'' [3], vector_hit ''H'' [4]])) = 2"
  using merge_length_min [of 5 "[text_hit ''G'' (5::int)]" "[vector_hit ''G'' [3], vector_hit ''H'' [4]]"]
  by (simp add: merge_recall_def merge_phase_def append_doc_def merge_step_def
      no_locals_def keys_of_def dict_str_hit name_hit card_insert_if)


section \<open>No duplicate in the merged result\<close>

text \<open>
  Claim C2.  For every pair of hit lists, no identity key appears twice in the merged
  result: the keys \<open>str(item['name'])\<close> of its elements are pairwise different, and so
  are their names.
\<close>

theorem merge_no_duplicate_name:
  "distinct (map dict_str (merge_recall cap tsr r)) \<and> distinct (map name (merge_recall cap tsr r))"
proof -
  have d: "distinct (map dict_str (merge_recall cap tsr r))"
    unfolding merge_recall_eq take_map [symmetric]
    by (rule distinct_take) (rule distinct_first_seen)
  have "map dict_str (merge_recall cap tsr r) = map py_str (map name (merge_recall cap tsr r))"
    by (simp add: dict_str_def)
  with d have "distinct (map name (merge_recall cap tsr r))"
    by (simp only: distinct_map)
  with d show ?thesis by simp
qed


section \<open>Priority of the text-search hits\<close>

text \<open>
  Claim C3.  The merged list is the text-search hits followed by the vector-search
  hits, each in the given order.  If an identity key occurs in both hit lists, it
  occupies the same positions in the merged result as in the result of merging the
  text-search hits alone, the elements at such a position are the same, and the element
  is the first hit of the text-search list with that key.
\<close>

theorem lexical_priority:
  assumes "k \<in> keys_of tsr" and "k \<in> keys_of r"
  shows "merged_list (merge_phase cap s tsr r) = tsr @ r
    \<and> (\<forall>i. (i < length (merge_recall cap tsr r) \<and> dict_str (merge_recall cap tsr r ! i) = k)
          = (i < length (merge_recall cap tsr []) \<and> dict_str (merge_recall cap tsr [] ! i) = k))
    \<and> (\<forall>i. i < length (merge_recall cap tsr r) \<and> dict_str (merge_recall cap tsr r ! i) = k
          \<longrightarrow> merge_recall cap tsr r ! i = merge_recall cap tsr [] ! i
            \<and> find (\<lambda>d. dict_str d = k) tsr = Some (merge_recall cap tsr r ! i))"
proof -
  define lex where "lex = merge_recall cap tsr []"
  define vec where "vec = take (cap - length (first_seen {} tsr)) (first_seen (keys_of tsr) r)"
  define res where "res = merge_recall cap tsr r"
  have res: "res = lex @ vec"
    unfolding res_def lex_def vec_def by (rule merge_recall_split)
  have vec: "dict_str x \<noteq> k" if "x \<in> set vec" for x
    using that assms(1) vector_part_keys [of x _ tsr r] unfolding vec_def by blast
  have in_lex: "i < length lex" if "i < length res" "dict_str (res ! i) = k" for i
  proof (rule ccontr)
    assume "\<not> i < length lex"
    then have "res ! i = vec ! (i - length lex)" "i - length lex < length vec"
      using that(1) by (simp_all add: res nth_append)
    then have "res ! i \<in> set vec" by simp
    then show False using vec that(2) by blast
  qed
  have same: "res ! i = lex ! i" if "i < length lex" for i
    using that by (simp add: res nth_append)
  have first: "find (\<lambda>d. dict_str d = dict_str (lex ! i)) tsr = Some (lex ! i)"
    if "i < length lex" for i
  proof -
    have "lex ! i \<in> set lex" using that by simp
    then have "lex ! i \<in> set (first_seen {} tsr)"
      unfolding lex_def merge_recall_eq by (auto dest: in_set_takeD)
    then show ?thesis by (rule first_seen_find)
  qed
  have m: "merged_list (merge_phase cap s tsr r) = tsr @ r"
    by (rule merge_phase_merged_list)
  have pos: "(i < length res \<and> dict_str (res ! i) = k) = (i < length lex \<and> dict_str (lex ! i) = k)" for i
    using in_lex [of i] same [of i] by (auto simp: res)
  have occ: "res ! i = lex ! i \<and> find (\<lambda>d. dict_str d = k) tsr = Some (res ! i)"
    if "i < length res" "dict_str (res ! i) = k" for i
    using in_lex [OF that] same [of i] first [of i] that(2) by auto
  show ?thesis
    using m pos occ unfolding res_def lex_def by blast
qed

theorem lexical_priority_witness:
  "''B'' \<in> keys_of [text_hit ''A'' (9::int), text_hit ''B'' 8, text_hit ''C'' 7]
   \<and> ''B'' \<in> keys_of [vector_hit ''B'' [1::int], vector_hit ''D'' [2]]
   \<and> merge_recall 2 [text_hit ''A'' (9::int), text_hit ''B'' 8, text_hit ''C'' 7]
        [vector_hit ''B'' [1], vector_hit ''D'' [2]] = [text_hit ''A'' 9, text_hit ''B'' 8]
   \<and> merge_recall 2 [text_hit ''A'' (9::int), text_hit ''B'' 8, text_hit ''C'' 7] []
        = [text_hit ''A'' 9, text_hit ''B'' 8]
   \<and> find (\<lambda>d. dict_str d = ''B'') [text_hit ''A'' (9::int), text_hit ''B'' 8, text_hit ''C'' 7]
        = Some (text_hit ''B'' 8)"
  using lexical_priority [of "''B''" "[text_hit ''A'' (9::int), text_hit ''B'' 8, text_hit ''C'' 7]"
      "[vector_hit ''B'' [1::int], vector_hit ''D'' [2]]" 2 no_locals]
  by (simp add: keys_of_def merge_recall_def merge_phase_def append_doc_def merge_step_def
      no_locals_def dict_str_hit)


section \<open>Scores play no part in the merge\<close>

text \<open>
  Claim C7.  The merge looks at the names only.  Two pairs of hit lists that carry the
  same names in the same order in each list, whatever their scores (and their other
  fields), are merged into results with the same names in the same order.
\<close>

theorem merge_names_only:
  assumes "map name tsr = map name tsr'" and "map name r = map name r'"
  shows "map name (merge_recall cap tsr r) = map name (merge_recall cap tsr' r')"
proof -
  have "map name (tsr @ r) = map name (tsr' @ r')" using assms by simp
  then have "map name (first_seen {} (tsr @ r)) = map name (first_seen {} (tsr' @ r'))"
    by (rule first_seen_keys_only)
  then show ?thesis unfolding merge_recall_eq by (metis take_map)
qed

theorem merge_names_only_witness:
  "map name [text_hit ''G'' (5::int)] = map name [text_hit ''G'' 1]
   \<and> map name [vector_hit ''G'' [3::int], vector_hit ''H'' [4]]
       = map name [vector_hit ''G'' [40], vector_hit ''H'' [30]]
   \<and> map name (merge_recall 5 [text_hit ''G'' (5::int)] [vector_hit ''G'' [3], vector_hit ''H'' [4]])
       = map name (merge_recall 5 [text_hit ''G'' 1] [vector_hit ''G'' [40], vector_hit ''H'' [30]])
   \<and> map name (merge_recall 5 [text_hit ''G'' (5::int)] [vector_hit ''G'' [3], vector_hit ''H'' [4]])
       = [Some ''G'', Some ''H'']"
  using merge_names_only [of "[text_hit ''G'' (5::int)]" "[text_hit ''G'' 1]"
      "[vector_hit ''G'' [3::int], vector_hit ''H'' [4]]"
      "[vector_hit ''G'' [40], vector_hit ''H'' [30]]" 5]
  by (simp add: merge_recall_def merge_phase_def append_doc_def merge_step_def
      no_locals_def dict_str_hit name_hit)


section \<open>The effects of the merge lines\<close>

text \<open>
  Claim C8, as amended.  The merge result is a function of the documents that the two
  cursors yield and of the cap alone: whatever the locals before, the other answers of
  the services and the log, the merge lines end with \<open>merged_list\<close> the text-search
  documents followed by the vector-search documents, \<open>result\<close> the reference merge of
  these documents and \<open>unique_set\<close> the keys of the result.  The lines are not free of
  effects.  The loop over \<open>tsr\<close> sends the text-search query, one call to the
  collection, unless the cursor was fetched before; and both cursors are left
  exhausted, so that the same lines run again on the same two cursors make no call and
  end with the empty result.
\<close>

theorem merge_lines_effects:
  fixes S :: "'f services"
  assumes "find_text S log en_response = Inr docs"
  shows "merge_lines cap S s (Unsent en_response) (Fetched vs) log =
      (Inr (\<lparr>merged_list = docs @ vs,
             unique_set = keys_of (spec_merge cap docs vs),
             result = spec_merge cap docs vs\<rparr>, Fetched [], Fetched []),
       log @ [FindText en_response])
    \<and> merge_lines cap S s' (Fetched docs) (Fetched vs) log' =
      (Inr (\<lparr>merged_list = docs @ vs,
             unique_set = keys_of (spec_merge cap docs vs),
             result = spec_merge cap docs vs\<rparr>, Fetched [], Fetched []),
       log')
    \<and> merge_lines cap S s' (Fetched []) (Fetched []) log' =
      (Inr (\<lparr>merged_list = [], unique_set = {}, result = []\<rparr>, Fetched [], Fetched []), log')"
proof -
  have "merge_lines cap S s (Unsent en_response) (Fetched vs) log =
      (Inr (merge_phase cap s docs vs, Fetched [], Fetched []), log @ [FindText en_response])"
    using assms by (simp add: merge_lines_unsent text_search_def and_then_Inr)
  moreover have "merge_lines cap S s' (Fetched ds) (Fetched vs) log' =
      (Inr (merge_phase cap s' ds vs, Fetched [], Fetched []), log')" for ds vs
    by (rule merge_lines_fetched)
  moreover have "spec_merge cap [] [] = ([] :: 'f doc list)"
    by (simp add: spec_merge_def)
  ultimately show ?thesis
    by (simp add: merge_phase_explicit keys_of_def)
qed

theorem merge_lines_effects_witness:
  "find_text (demo_services {} [text_hit ''G'' (5::int)] []) [] ''multiplayer shooting''
     = Inr [text_hit ''G'' 5]
   \<and> spec_merge 5 [text_hit ''G'' (5::int)] [vector_hit ''G'' [3], vector_hit ''H'' [4]]
     = [text_hit ''G'' 5, vector_hit ''H'' [4]]
   \<and> merge_lines 5 (demo_services {} [text_hit ''G'' (5::int)] []) no_locals
       (Unsent ''multiplayer shooting'') (Fetched [vector_hit ''G'' [3], vector_hit ''H'' [4]]) [] =
      (Inr (\<lparr>merged_list = [text_hit ''G'' 5, vector_hit ''G'' [3], vector_hit ''H'' [4]],
             unique_set = {''G'', ''H''},
             result = [text_hit ''G'' 5, vector_hit ''H'' [4]]\<rparr>, Fetched [], Fetched []),
       [FindText ''multiplayer shooting''])"
  using merge_lines_effects [of "demo_services {} [text_hit ''G'' (5::int)] []" "[]"
      "''multiplayer shooting''" "[text_hit ''G'' 5]" 5 no_locals
      "[vector_hit ''G'' [3], vector_hit ''H'' [4]]" no_locals "[]"]
  by (simp add: demo_services_def spec_merge_def keys_of_def dict_str_hit)

text \<open>
  The merge lines on the cursors of a search, the text-search query not yet sent and
  the vector-search answer fetched: the query is sent and the result holds two
  candidates; run again on the two cursors as they are left, the lines end with no
  candidate.
\<close>

theorem merge_rerun_counterexample:
  "merge_lines 2 (demo_services {} [text_hit ''A'' (9::int), text_hit ''B'' 8, text_hit ''C'' 7] [])
       no_locals (Unsent ''multiplayer shooting'')
       (Fetched [vector_hit ''B'' [1], vector_hit ''D'' [2]]) [] =
      (Inr (\<lparr>merged_list = [text_hit ''A'' 9, text_hit ''B'' 8, text_hit ''C'' 7,
                             vector_hit ''B'' [1], vector_hit ''D'' [2]],
             unique_set = {''A'', ''B''},
             result = [text_hit ''A'' 9, text_hit ''B'' 8]\<rparr>, Fetched [], Fetched []),
       [FindText ''multiplayer shooting''])
   \<and> merge_lines 2 (demo_services {} [text_hit ''A'' (9::int), text_hit ''B'' 8, text_hit ''C'' 7] [])
       \<lparr>merged_list = [text_hit ''A'' 9, text_hit ''B'' 8, text_hit ''C'' 7,
                       vector_hit ''B'' [1], vector_hit ''D'' [2]],
        unique_set = {''A'', ''B''},
        result = [text_hit ''A'' 9, text_hit ''B'' 8]\<rparr>
       (Fetched []) (Fetched []) [FindText ''multiplayer shooting''] =
      (Inr (\<lparr>merged_list = [], unique_set = {}, result = []\<rparr>, Fetched [], Fetched []),
       [FindText ''multiplayer shooting''])"
  by (simp add: merge_lines_def and_then_def text_search_def demo_services_def
      merge_phase_def append_doc_def merge_step_def no_locals_def dict_str_hit insert_commute)


section \<open>The source's loop and the reference algorithm\<close>

text \<open>
  Claim C9.  The loop of the source walks the whole merged list and guards each
  emission with ``key not yet seen and fewer than cap emitted''; the reference algorithm
  of the specification stops scanning once cap items are emitted.  For every pair of hit
  lists and every cap both produce the same sequence.
\<close>

theorem merge_eq_spec: "merge_recall n tsr r = spec_merge n tsr r"
  by (simp add: merge_recall_eq spec_merge_def spec_scan_eq)


section \<open>The merge only omits\<close>

text \<open>
  Claim C10.  The merged result is a subsequence of the text-search hits followed by
  the vector-search hits: every element is an element of one of the two hit lists,
  unchanged in all its fields, and the elements keep their order.
\<close>

theorem merge_subseq:
  "subseq (merge_recall cap tsr r) (tsr @ r) \<and> set (merge_recall cap tsr r) \<subseteq> set tsr \<union> set r"
proof -
  have "subseq (take cap (first_seen {} (tsr @ r))) (first_seen {} (tsr @ r))"
    by (metis append_take_drop_id subseq_rev_drop_many subseq_order.order_refl)
  then have s: "subseq (merge_recall cap tsr r) (tsr @ r)"
    unfolding merge_recall_eq using subseq_first_seen subseq_order.order_trans by blast
  then have "set (merge_recall cap tsr r) \<subseteq> set (tsr @ r)"
    by (auto elim: list_emb_set)
  with s show ?thesis by simp
qed


section \<open>Which text goes to which search\<close>

text \<open>
  Claim C4.  For every raw query string, the embedding for the vector search is
  computed from the raw query text, and the text search is run on the text returned by
  the translation call (the text model applied to the translation instruction followed
  by the raw query).  In every run, whatever the services answer, each embedding call in
  the log has the raw query as argument and each text-search call has the translation's
  answer as argument.  When the translation, the embedding and the vector search
  succeed, the first four calls are: translation of the raw query, embedding of the
  raw query, vector search with that embedding (path \<open>descriptions_embeddings\<close>,
  similarity \<open>euclidean\<close>, \<open>k = 2\<close>), text search on the translation; the hits that
  are merged and handed to generation are what the vector index answers to the
  embedding of the raw query and what the text index answers to the translation, and a
  failure of the text index on the translation, or of the embedding model on the raw
  query, is the failure of the search.
\<close>

theorem query_text_routing:
  fixes S :: "'f services"
  shows "(\<forall>t. EmbedQuery t \<in> set (snd (similarity_search L S q)) \<longrightarrow> t = q)
    \<and> (\<forall>t. FindText t \<in> set (snd (similarity_search L S q)) \<longrightarrow>
          invoke_model S [] (translate_instruction L @ q) = Inr t)
    \<and> (\<forall>en res1 r.
          invoke_model S [] (translate_instruction L @ q) = Inr en \<longrightarrow>
          embed_query S [InvokeModel (translate_instruction L @ q)] q = Inr res1 \<longrightarrow>
          aggregate S [InvokeModel (translate_instruction L @ q), EmbedQuery q] res1
            ''descriptions_embeddings'' ''euclidean'' 2 = Inr r \<longrightarrow>
          take 4 (snd (similarity_search L S q)) =
            [InvokeModel (translate_instruction L @ q), EmbedQuery q,
             Aggregate res1 ''descriptions_embeddings'' ''euclidean'' 2, FindText en]
          \<and> (\<forall>tsr.
                find_text S [InvokeModel (translate_instruction L @ q), EmbedQuery q,
                  Aggregate res1 ''descriptions_embeddings'' ''euclidean'' 2] en = Inr tsr \<longrightarrow>
                similarity_search L S q =
                  generation_loop L S (merge_recall 2 tsr r)
                    [InvokeModel (translate_instruction L @ q), EmbedQuery q,
                     Aggregate res1 ''descriptions_embeddings'' ''euclidean'' 2, FindText en])
          \<and> (\<forall>e.
                find_text S [InvokeModel (translate_instruction L @ q), EmbedQuery q,
                  Aggregate res1 ''descriptions_embeddings'' ''euclidean'' 2] en = Inl e \<longrightarrow>
                similarity_search L S q =
                  (Inl e, [InvokeModel (translate_instruction L @ q), EmbedQuery q,
                     Aggregate res1 ''descriptions_embeddings'' ''euclidean'' 2, FindText en])))
    \<and> (\<forall>en e.
          invoke_model S [] (translate_instruction L @ q) = Inr en \<longrightarrow>
          embed_query S [InvokeModel (translate_instruction L @ q)] q = Inl e \<longrightarrow>
          similarity_search L S q =
            (Inl e, [InvokeModel (translate_instruction L @ q), EmbedQuery q]))"
proof (cases S L q rule: similarity_search_cases)
  case (translate_fails e)
  then show ?thesis by simp
next
  case (embed_fails en e)
  then show ?thesis by auto
next
  case (vector_fails en res1 e)
  then show ?thesis by auto
next
  case (text_fails en res1 r e)
  then show ?thesis by auto
next
  case (retrieved en res1 r tsr)
  let ?log4 = "[InvokeModel (translate_instruction L @ q), EmbedQuery q,
                Aggregate res1 ''descriptions_embeddings'' ''euclidean'' 2, FindText en]"
  obtain ev where ev: "snd (similarity_search L S q) = ?log4 @ ev" "set ev \<subseteq> generation_calls"
    using generation_loop_log [of L S "merge_recall 2 tsr r" ?log4] retrieved(5) by auto
  have "EmbedQuery t \<notin> set ev" "FindText t \<notin> set ev" for t
    using ev(2) by (auto simp: generation_calls_def)
  then show ?thesis
    using retrieved ev(1) by auto
qed

theorem query_text_routing_witness:
  "invoke_model routed_services []
       (translate_instruction literals_en @ ''Multiplayer Shooting Game'')
     = Inr ''multiplayer shooting''
   \<and> embed_query routed_services
       [InvokeModel (translate_instruction literals_en @ ''Multiplayer Shooting Game'')]
       ''Multiplayer Shooting Game'' = Inr [1]
   \<and> aggregate routed_services
       [InvokeModel (translate_instruction literals_en @ ''Multiplayer Shooting Game''),
        EmbedQuery ''Multiplayer Shooting Game''] [1]
       ''descriptions_embeddings'' ''euclidean'' 2 = Inr [vector_hit ''B'' [1]]
   \<and> find_text routed_services
       [InvokeModel (translate_instruction literals_en @ ''Multiplayer Shooting Game''),
        EmbedQuery ''Multiplayer Shooting Game'',
        Aggregate [1] ''descriptions_embeddings'' ''euclidean'' 2]
       ''multiplayer shooting'' = Inr [text_hit ''A'' 9]
   \<and> similarity_search literals_en routed_services ''Multiplayer Shooting Game'' =
       (Inr (),
        [InvokeModel (translate_instruction literals_en @ ''Multiplayer Shooting Game''),
         EmbedQuery ''Multiplayer Shooting Game'',
         Aggregate [1] ''descriptions_embeddings'' ''euclidean'' 2,
         FindText ''multiplayer shooting'',
         InvokeModel (projr (build_prompt literals_en (text_hit ''A'' (9::int)))),
         RequestsGet ''https://example.com/A.jpg'', ImRead ''https://example.com/A.jpg'',
         InvokeModel (projr (build_prompt literals_en (vector_hit ''B'' [1::int]))),
         RequestsGet ''https://example.com/B.jpg'', ImRead ''https://example.com/B.jpg''])"
  using query_text_routing [of literals_en routed_services "''Multiplayer Shooting Game''"]
  by (simp add: run_defs routed_services_def)


section \<open>The empty query\<close>

text \<open>
  Claim C5, as amended.  \<open>similarity_search\<close> does not validate its argument.  For the
  empty query string, as for any other, its first action is an external call: the
  translation request, whose prompt is the translation instruction followed by the
  (empty) query text.  When the translation, the embedding and the vector search
  answer, the embedding call on the empty text, the vector search and the text search
  on the translation's answer are issued as well.
\<close>

theorem empty_query_not_rejected:
  fixes S :: "'f services"
  shows "snd (similarity_search L S []) \<noteq> []
    \<and> hd (snd (similarity_search L S [])) = InvokeModel (translate_instruction L)
    \<and> (\<forall>en res1 r.
          invoke_model S [] (translate_instruction L) = Inr en \<longrightarrow>
          embed_query S [InvokeModel (translate_instruction L)] [] = Inr res1 \<longrightarrow>
          aggregate S [InvokeModel (translate_instruction L), EmbedQuery []] res1
            ''descriptions_embeddings'' ''euclidean'' 2 = Inr r \<longrightarrow>
          take 4 (snd (similarity_search L S [])) =
            [InvokeModel (translate_instruction L), EmbedQuery [],
             Aggregate res1 ''descriptions_embeddings'' ''euclidean'' 2, FindText en])"
proof (cases S L "[] :: string" rule: similarity_search_cases)
  case (retrieved en res1 r tsr)
  then show ?thesis
    using generation_loop_log [of L S "merge_recall 2 tsr r"
        "[InvokeModel (translate_instruction L), EmbedQuery [],
          Aggregate res1 ''descriptions_embeddings'' ''euclidean'' 2, FindText en]"]
    by auto
qed auto

theorem empty_query_not_rejected_witness:
  "invoke_model (demo_services {} [text_hit ''A'' (9::int)] [vector_hit ''B'' []]) []
       (translate_instruction literals_en) = Inr ''multiplayer shooting''
   \<and> embed_query (demo_services {} [text_hit ''A'' (9::int)] [vector_hit ''B'' []])
       [InvokeModel (translate_instruction literals_en)] [] = Inr []
   \<and> aggregate (demo_services {} [text_hit ''A'' (9::int)] [vector_hit ''B'' []])
       [InvokeModel (translate_instruction literals_en), EmbedQuery []] []
       ''descriptions_embeddings'' ''euclidean'' 2 = Inr [vector_hit ''B'' []]
   \<and> take 4 (snd (similarity_search literals_en
       (demo_services {} [text_hit ''A'' (9::int)] [vector_hit ''B'' []]) [])) =
       [InvokeModel (translate_instruction literals_en), EmbedQuery [],
        Aggregate [] ''descriptions_embeddings'' ''euclidean'' 2,
        FindText ''multiplayer shooting'']"
  using empty_query_not_rejected [of literals_en
      "demo_services {} [text_hit ''A'' (9::int)] [vector_hit ''B'' []]"]
  by (simp add: run_defs)

text \<open>
  With services that answer every call and find no hit, \<open>similarity_search\<close> on the
  empty string ends without error after the translation, embedding, vector-search and
  text-search calls: it does not fail before the first external call.
\<close>

theorem empty_query_counterexample:
  "similarity_search literals_en (demo_services {} [] [] :: int services) [] =
     (Inr (),
      [InvokeModel (translate_instruction literals_en), EmbedQuery [],
       Aggregate [] ''descriptions_embeddings'' ''euclidean'' 2,
       FindText ''multiplayer shooting''])"
  by (simp add: run_defs)


section \<open>A failing generation call\<close>

text \<open>
  Claim C6, as amended.  The generation loop has no exception handler.  When the
  candidates before \<open>x\<close> have been processed without error and the generation call for
  \<open>x\<close> fails, the loop ends with that error right after this call: whatever candidates
  \<open>post\<close> follow, no call is made for them.
\<close>

theorem generation_failure_propagates:
  assumes "generation_loop L S pre log = (Inr (), log')"
    and "build_prompt L x = Inr prompt"
    and "invoke_model S log' prompt = Inl e"
  shows "generation_loop L S (pre @ x # post) log = (Inl e, log' @ [InvokeModel prompt])"
proof -
  have "generation_step L S x log' = (Inl e, log' @ [InvokeModel prompt])"
    using assms(2,3) by (simp add: generation_step_def and_then_def timer_llm_claude3_def)
  then show ?thesis
    using assms(1) by (simp add: generation_loop_append)
qed

theorem generation_failure_propagates_witness:
  "generation_loop literals_en (demo_services {3} [] []) [text_hit ''A'' (9::int)] [] =
     (Inr (),
      [InvokeModel (projr (build_prompt literals_en (text_hit ''A'' (9::int)))),
       RequestsGet ''https://example.com/A.jpg'', ImRead ''https://example.com/A.jpg''])
   \<and> build_prompt literals_en (vector_hit ''B'' ([]::int list)) =
       Inr (projr (build_prompt literals_en (vector_hit ''B'' ([]::int list))))
   \<and> invoke_model (demo_services {3} [] [] :: int services)
       [InvokeModel (projr (build_prompt literals_en (text_hit ''A'' (9::int)))),
        RequestsGet ''https://example.com/A.jpg'', ImRead ''https://example.com/A.jpg'']
       (projr (build_prompt literals_en (vector_hit ''B'' ([]::int list))))
       = Inl (ExternalError ''ThrottlingException'')
   \<and> generation_loop literals_en (demo_services {3} [] [])
       ([text_hit ''A'' (9::int)] @ vector_hit ''B'' [] # [text_hit ''C'' 7]) [] =
     (Inl (ExternalError ''ThrottlingException''),
      [InvokeModel (projr (build_prompt literals_en (text_hit ''A'' (9::int)))),
       RequestsGet ''https://example.com/A.jpg'', ImRead ''https://example.com/A.jpg'']
      @ [InvokeModel (projr (build_prompt literals_en (vector_hit ''B'' ([]::int list))))])"
  using generation_failure_propagates [of literals_en "demo_services {3} [] [] :: int services"
      "[text_hit ''A'' (9::int)]" "[]"
      "[InvokeModel (projr (build_prompt literals_en (text_hit ''A'' (9::int)))),
        RequestsGet ''https://example.com/A.jpg'', ImRead ''https://example.com/A.jpg'']"
      "vector_hit ''B'' []" "projr (build_prompt literals_en (vector_hit ''B'' ([]::int list)))"
      "ExternalError ''ThrottlingException''" "[text_hit ''C'' 7]"]
  by (simp add: run_defs)

text \<open>
  The merged result holds two candidates; the generation call for the first fails (the
  call made when the log has four entries), and \<open>similarity_search\<close> ends with that
  error: the log ends with that call and holds no generation call for the second
  candidate.
\<close>

theorem generation_failure_counterexample:
  "merge_recall 2 [text_hit ''A'' (9::int)] [vector_hit ''B'' []] =
     [text_hit ''A'' 9, vector_hit ''B'' []]
   \<and> similarity_search literals_en
       (demo_services {4} [text_hit ''A'' (9::int)] [vector_hit ''B'' []])
       ''Multiplayer Shooting Game'' =
     (Inl (ExternalError ''ThrottlingException''),
      [InvokeModel (translate_instruction literals_en @ ''Multiplayer Shooting Game''),
       EmbedQuery ''Multiplayer Shooting Game'',
       Aggregate [] ''descriptions_embeddings'' ''euclidean'' 2,
       FindText ''multiplayer shooting'',
       InvokeModel (projr (build_prompt literals_en (text_hit ''A'' (9::int))))])
   \<and> InvokeModel (projr (build_prompt literals_en (vector_hit ''B'' ([]::int list)))) \<notin>
       set (snd (similarity_search literals_en
         (demo_services {4} [text_hit ''A'' (9::int)] [vector_hit ''B'' []])
         ''Multiplayer Shooting Game''))"
  by (simp add: run_defs literals_en_def)

end
